theory Spec2Isabelle
  imports Main "HOL-Library.AList" "HOL-Library.Word" "HOL-Library.Char_ord"
    "HOL-Library.List_Lexorder"
begin

section \<open>Data model of the instruction-set description\<close>

text \<open>
  The generator \<^verbatim>\<open>gen_encoding.py\<close> reads objects of the instruction-set description:
  instructions, value types, instruction predicates and encodings. Their classes live
  outside the generator; here each object is the record of the attributes and method
  results the generator reads. Python's unbounded integers are \<^typ>\<open>int\<close>; an optional
  object (\<^verbatim>\<open>None\<close> or an instance) is an \<^typ>\<open>'a option\<close>, and the truth test
  \<^verbatim>\<open>if enc.instp:\<close> on such an object is the test for \<open>Some\<close>. Objects used as
  dictionary keys are compared by their attribute values.
\<close>

record instruction =
  inst_name :: string

record value_type =
  ty_name :: string

record instruction_format =
  iform_name :: string
  boxed_storage :: bool

text \<open>
  An instruction predicate: \<open>number\<close> is \<^verbatim>\<open>instp.number\<close>, \<open>instp_str\<close> is
  \<^verbatim>\<open>str(instp)\<close>, \<open>predicate_context\<close> the result of \<^verbatim>\<open>instp.predicate_context()\<close>,
  \<open>predicate_leafs\<close> the field names \<^verbatim>\<open>p.field.name\<close> of the leaves collected by
  \<^verbatim>\<open>instp.predicate_leafs\<close>, and \<open>rust_predicate\<close> the text of
  \<^verbatim>\<open>instp.rust_predicate(0)\<close>.
\<close>

record instp =
  number :: int
  instp_str :: string
  predicate_context :: instruction_format
  predicate_leafs :: "string list"
  rust_predicate :: string

text \<open>
  An encoding: \<open>enc_inst\<close> is \<^verbatim>\<open>enc.inst\<close>, \<open>ctrl_typevar\<close> the result of
  \<^verbatim>\<open>enc.ctrl_typevar()\<close>, \<open>recipe_number\<close> is \<^verbatim>\<open>enc.recipe.number\<close>, \<open>enc_str\<close> is
  \<^verbatim>\<open>str(enc)\<close> and \<open>enc_cpumode\<close> is \<^verbatim>\<open>str(enc.cpumode)\<close>.
\<close>

record encoding =
  enc_inst :: instruction
  ctrl_typevar :: "value_type option"
  recipe_number :: int
  encbits :: int
  enc_instp :: "instp option"
  enc_str :: string
  enc_cpumode :: string

record cpumode =
  cpumode_name :: string
  cpumode_encodings :: "encoding list"

record isa =
  isa_name :: string
  all_instps :: "instp list"
  cpumodes :: "cpumode list"

datatype error = AssertionError

section \<open>Encoding-list words\<close>

definition CODE_BITS :: nat where
  "CODE_BITS = 16"

definition PRED_BITS :: nat where
  "PRED_BITS = 12"

definition PRED_MASK :: int where
  "PRED_MASK = push_bit PRED_BITS 1 - 1"

definition CODE_ALWAYS :: int where
  "CODE_ALWAYS = PRED_MASK"

definition CODE_FAIL :: int where
  "CODE_FAIL = push_bit CODE_BITS 1 - 1"

text \<open>
  \<^verbatim>\<open>seq_doc(enc)\<close>: the triple of predicate field, recipe number and encoding bits,
  with the doc string. The \<^verbatim>\<open>assert\<close> after the two branches is the only check.
\<close>

definition seq_doc :: "encoding \<Rightarrow> error + ((int \<times> int \<times> int) \<times> string)" where
  "seq_doc enc =
     (let (p, doc) =
        (case enc_instp enc of
           Some ip \<Rightarrow> (number ip, ''--> '' @ enc_str enc @ '' when '' @ instp_str ip)
         | None \<Rightarrow> (CODE_ALWAYS, ''--> '' @ enc_str enc))
      in if p \<le> CODE_ALWAYS then Inr ((p, recipe_number enc, encbits enc), doc)
         else Inl AssertionError)"

text \<open>
  The loop of \<^verbatim>\<open>EncList.encode\<close> over \<^verbatim>\<open>self.encodings\<close>, with the two accumulators
  \<^verbatim>\<open>words\<close> and \<^verbatim>\<open>docs\<close>; \<^verbatim>\<open>words.extend(seq)\<close> appends the three members of the tuple.
\<close>

fun encode_loop ::
  "encoding list \<Rightarrow> int list \<Rightarrow> (nat \<times> string) list \<Rightarrow> error + (int list \<times> (nat \<times> string) list)"
where
  "encode_loop [] words docs = Inr (words, docs)"
| "encode_loop (enc # encs) words docs =
     (case seq_doc enc of
        Inl e \<Rightarrow> Inl e
      | Inr ((p, r, b), doc) \<Rightarrow> encode_loop encs (words @ [p, r, b]) (docs @ [(length words, doc)]))"

text \<open>The word list handed to the sequence table: the loop's words, then \<^verbatim>\<open>CODE_FAIL\<close>.\<close>

definition encode_words :: "encoding list \<Rightarrow> error + (int list \<times> (nat \<times> string) list)" where
  "encode_words encs =
     (case encode_loop encs [] [] of
        Inl e \<Rightarrow> Inl e
      | Inr (words, docs) \<Rightarrow> Inr (words @ [CODE_FAIL], docs))"

section \<open>Number formatting\<close>

text \<open>
  Python's \<^verbatim>\<open>'{:06x}'\<close> and \<^verbatim>\<open>'{:#06x}'\<close>: lower-case hexadecimal, zero-padded to six
  characters, the second with the \<^verbatim>\<open>0x\<close> prefix (and the sign) counted in the width;
  \<^verbatim>\<open>'{}'\<close> on a non-negative integer is its decimal numeral.
\<close>

fun hex_nat :: "nat \<Rightarrow> string" where
  "hex_nat n =
     (if n < 16 then [''0123456789abcdef'' ! n]
      else hex_nat (n div 16) @ [''0123456789abcdef'' ! (n mod 16)])"

declare hex_nat.simps [simp del]

fun dec_nat :: "nat \<Rightarrow> string" where
  "dec_nat n =
     (if n < 10 then [''0123456789'' ! n]
      else dec_nat (n div 10) @ [''0123456789'' ! (n mod 10)])"

declare dec_nat.simps [simp del]

definition zfill :: "nat \<Rightarrow> string \<Rightarrow> string" where
  "zfill w s = replicate (w - length s) CHR ''0'' @ s"

definition format_06x :: "nat \<Rightarrow> string" where
  "format_06x n = zfill 6 (hex_nat n)"

definition format_alt_06x :: "int \<Rightarrow> string" where
  "format_alt_06x n =
     (if n < 0 then ''-0x'' @ zfill 3 (hex_nat (nat (- n)))
      else ''0x'' @ zfill 4 (hex_nat (nat n)))"

section \<open>The sequence table\<close>

text \<open>
  Modelled from the spec: the class \<^verbatim>\<open>UniqueSeqTable\<close> of the module \<^verbatim>\<open>unique_table\<close>
  is imported by the generator and is not part of the source at hand. The spec calls it
  the sequence interner: it accepts finite sequences of words, returns a stable offset
  for each, and stores identical sequences, overlapping suffixes included, at most once.
  The generator reads its attribute \<^verbatim>\<open>table\<close>, the flat word list. The model keeps,
  beside \<open>table\<close>, an \<open>index\<close> from every sequence stored so far, and each of its
  suffixes, to the offset first given to it; \<open>add\<close> answers from the index and
  otherwise appends the sequence to the table.
\<close>

record unique_seq_table =
  table :: "int list"
  index :: "int list \<rightharpoonup> nat"

definition UniqueSeqTable :: unique_seq_table where
  "UniqueSeqTable = \<lparr>table = [], index = Map.empty\<rparr>"

definition index_new :: "(int list \<rightharpoonup> nat) \<Rightarrow> int list \<Rightarrow> nat \<Rightarrow> (int list \<rightharpoonup> nat)" where
  "index_new idx s off = (case idx s of None \<Rightarrow> idx(s \<mapsto> off) | Some _ \<Rightarrow> idx)"

fun index_suffixes :: "(int list \<rightharpoonup> nat) \<Rightarrow> nat \<Rightarrow> int list \<Rightarrow> (int list \<rightharpoonup> nat)" where
  "index_suffixes idx off [] = index_new idx [] off"
| "index_suffixes idx off (x # xs) = index_suffixes (index_new idx (x # xs) off) (Suc off) xs"

definition add :: "unique_seq_table \<Rightarrow> int list \<Rightarrow> nat \<times> unique_seq_table" where
  "add self seq =
     (case index self seq of
        Some off \<Rightarrow> (off, self)
      | None \<Rightarrow>
          (length (table self),
           self\<lparr>table := table self @ seq,
                index := index_suffixes (index self) (length (table self)) seq\<rparr>))"

section \<open>Encoding lists\<close>

text \<open>
  An \<^verbatim>\<open>EncList\<close> object. The attribute \<^verbatim>\<open>offset\<close> exists only after \<^verbatim>\<open>encode\<close> has run:
  it is \<open>None\<close> before.
\<close>

record enclist =
  inst :: instruction
  ty :: "value_type option"
  encodings :: "encoding list"
  offset :: "nat option"

definition EncList :: "instruction \<Rightarrow> value_type option \<Rightarrow> enclist" where
  "EncList i t = \<lparr>inst = i, ty = t, encodings = [], offset = None\<rparr>"

definition name :: "enclist \<Rightarrow> string" where
  "name self =
     (let n = inst_name (inst self);
          n = (case ty self of Some t \<Rightarrow> n @ ''.'' @ ty_name t | None \<Rightarrow> n);
          n = (case encodings self of e # _ \<Rightarrow> n @ '' ('' @ enc_cpumode e @ '')'' | [] \<Rightarrow> n)
      in n)"

text \<open>
  The doc table is a \<^verbatim>\<open>defaultdict(list)\<close>: reading a missing key gives the empty list,
  and \<^verbatim>\<open>doc_table[k].append(line)\<close> creates the key.
\<close>

type_synonym doc_table = "nat \<rightharpoonup> string list"

definition docs_at :: "doc_table \<Rightarrow> nat \<Rightarrow> string list" where
  "docs_at doc_table k = (case doc_table k of None \<Rightarrow> [] | Some ls \<Rightarrow> ls)"

definition doc_append :: "doc_table \<Rightarrow> nat \<Rightarrow> string \<Rightarrow> doc_table" where
  "doc_append doc_table k line = doc_table(k \<mapsto> docs_at doc_table k @ [line])"

text \<open>
  \<^verbatim>\<open>EncList.encode\<close>. The object is mutated (\<^verbatim>\<open>self.offset\<close>), as are the two tables:
  the model returns the three of them, or the assertion failure of \<^verbatim>\<open>seq_doc\<close>.
\<close>

definition encode ::
  "enclist \<Rightarrow> unique_seq_table \<Rightarrow> doc_table \<Rightarrow> error + (enclist \<times> unique_seq_table \<times> doc_table)"
where
  "encode self seq_table doc_table =
     (case encode_words (encodings self) of
        Inl e \<Rightarrow> Inl e
      | Inr (words, docs) \<Rightarrow>
          (let (off, seq_table') = add seq_table words;
               self' = self\<lparr>offset := Some off\<rparr>;
               doc_table' = doc_append doc_table off (format_06x off @ '': '' @ name self')
           in Inr (self', seq_table',
                   fold (\<lambda>(pos, doc) dt. doc_append dt (off + pos) doc) docs doc_table')))"

section \<open>The two-level table\<close>

text \<open>
  Both levels are \<^verbatim>\<open>OrderedDict\<close>s: association lists in insertion order, read with
  \<open>map_of\<close> and written with \<open>AList.update\<close> (a new key goes to the end, an existing key
  keeps its place). Neither \<^verbatim>\<open>Level2Table\<close> nor \<^verbatim>\<open>EncList\<close> defines a length or a truth
  value, so \<^verbatim>\<open>if not tbl\<close> is the test for a missing key.
\<close>

record level2table =
  tbl_ty :: "value_type option"
  lists :: "(instruction \<times> enclist) list"

record level1table =
  tables :: "(value_type option \<times> level2table) list"

definition Level2Table :: "value_type option \<Rightarrow> level2table" where
  "Level2Table t = \<lparr>tbl_ty = t, lists = []\<rparr>"

definition Level1Table :: level1table where
  "Level1Table = \<lparr>tables = []\<rparr>"

definition level2_getitem :: "level2table \<Rightarrow> instruction \<Rightarrow> enclist \<times> level2table" where
  "level2_getitem self i =
     (case map_of (lists self) i of
        Some ls \<Rightarrow> (ls, self)
      | None \<Rightarrow>
          (let ls = EncList i (tbl_ty self)
           in (ls, self\<lparr>lists := AList.update i ls (lists self)\<rparr>)))"

definition level1_getitem :: "level1table \<Rightarrow> value_type option \<Rightarrow> level2table \<times> level1table" where
  "level1_getitem self t =
     (case map_of (tables self) t of
        Some tbl \<Rightarrow> (tbl, self)
      | None \<Rightarrow>
          (let tbl = Level2Table t
           in (tbl, self\<lparr>tables := AList.update t tbl (tables self)\<rparr>)))"

text \<open>
  One round of the loop of \<^verbatim>\<open>make_tables\<close>:
  \<^verbatim>\<open>table[ty][inst].encodings.append(enc)\<close>. The two lookups return references into the
  dictionaries, and the append changes the list object they hold; in the model the
  changed list is written back under its key, and the changed level-2 table under its.
\<close>

definition append_encoding :: "level1table \<Rightarrow> encoding \<Rightarrow> level1table" where
  "append_encoding table0 enc =
     (let t = ctrl_typevar enc;
          i = enc_inst enc;
          (tbl, table1) = level1_getitem table0 t;
          (ls, tbl1) = level2_getitem tbl i;
          ls' = ls\<lparr>encodings := encodings ls @ [enc]\<rparr>;
          tbl2 = tbl1\<lparr>lists := AList.update i ls' (lists tbl1)\<rparr>
      in table1\<lparr>tables := AList.update t tbl2 (tables table1)\<rparr>)"

definition make_tables :: "cpumode \<Rightarrow> level1table" where
  "make_tables cm = foldl append_encoding Level1Table (cpumode_encodings cm)"

text \<open>
  \<^verbatim>\<open>encode_enclists\<close>: every list of every level-2 table, in dictionary order, with the
  two tables threaded through; the first assertion failure ends the run.
\<close>

fun encode_level2 ::
  "(instruction \<times> enclist) list \<Rightarrow> unique_seq_table \<Rightarrow> doc_table \<Rightarrow>
     error + ((instruction \<times> enclist) list \<times> unique_seq_table \<times> doc_table)"
where
  "encode_level2 [] seq_table doc_table = Inr ([], seq_table, doc_table)"
| "encode_level2 ((i, ls) # rest) seq_table doc_table =
     (case encode ls seq_table doc_table of
        Inl e \<Rightarrow> Inl e
      | Inr (ls', seq_table', doc_table') \<Rightarrow>
          (case encode_level2 rest seq_table' doc_table' of
             Inl e \<Rightarrow> Inl e
           | Inr (rest', seq_table'', doc_table'') \<Rightarrow>
               Inr ((i, ls') # rest', seq_table'', doc_table'')))"

fun encode_level1 ::
  "(value_type option \<times> level2table) list \<Rightarrow> unique_seq_table \<Rightarrow> doc_table \<Rightarrow>
     error + ((value_type option \<times> level2table) list \<times> unique_seq_table \<times> doc_table)"
where
  "encode_level1 [] seq_table doc_table = Inr ([], seq_table, doc_table)"
| "encode_level1 ((t, level2) # rest) seq_table doc_table =
     (case encode_level2 (lists level2) seq_table doc_table of
        Inl e \<Rightarrow> Inl e
      | Inr (ls', seq_table', doc_table') \<Rightarrow>
          (case encode_level1 rest seq_table' doc_table' of
             Inl e \<Rightarrow> Inl e
           | Inr (rest', seq_table'', doc_table'') \<Rightarrow>
               Inr ((t, level2\<lparr>lists := ls'\<rparr>) # rest', seq_table'', doc_table'')))"

definition encode_enclists ::
  "level1table \<Rightarrow> unique_seq_table \<Rightarrow> doc_table \<Rightarrow>
     error + (level1table \<times> unique_seq_table \<times> doc_table)"
where
  "encode_enclists level1 seq_table doc_table =
     (case encode_level1 (tables level1) seq_table doc_table of
        Inl e \<Rightarrow> Inl e
      | Inr (ts, seq_table', doc_table') \<Rightarrow> Inr (level1\<lparr>tables := ts\<rparr>, seq_table', doc_table'))"

text \<open>
  The loop of \<^verbatim>\<open>gen_isa\<close> over the CPU modes. The source drops each \<^verbatim>\<open>level1\<close> after
  encoding it; the model returns them, so that the offsets recorded in the lists can be
  read.
\<close>

fun encode_cpumodes ::
  "cpumode list \<Rightarrow> unique_seq_table \<Rightarrow> doc_table \<Rightarrow>
     error + (level1table list \<times> unique_seq_table \<times> doc_table)"
where
  "encode_cpumodes [] seq_table doc_table = Inr ([], seq_table, doc_table)"
| "encode_cpumodes (cm # rest) seq_table doc_table =
     (case encode_enclists (make_tables cm) seq_table doc_table of
        Inl e \<Rightarrow> Inl e
      | Inr (level1, seq_table', doc_table') \<Rightarrow>
          (case encode_cpumodes rest seq_table' doc_table' of
             Inl e \<Rightarrow> Inl e
           | Inr (rest', seq_table'', doc_table'') \<Rightarrow>
               Inr (level1 # rest', seq_table'', doc_table'')))"

section \<open>Emitted source text\<close>

text \<open>
  The generator writes through a formatter object (\<^verbatim>\<open>fmt.line\<close>, \<^verbatim>\<open>fmt.comment\<close>,
  \<^verbatim>\<open>fmt.indented\<close>), which is outside the generator. The calls made on it are recorded
  as a tree: a line, a comment, or an indented block with its opening and closing line.
\<close>

datatype src = Line string | Comment string | Indented string "src list" string

text \<open>
  The loop of \<^verbatim>\<open>emit_enclists\<close> over \<^verbatim>\<open>enumerate(seq_table.table)\<close>, with the pending
  \<^verbatim>\<open>line\<close> as accumulator, and the flush of the last line after it.
\<close>

fun emit_entries :: "int list \<Rightarrow> nat \<Rightarrow> doc_table \<Rightarrow> string \<Rightarrow> src list" where
  "emit_entries [] idx doc_table line = (if line \<noteq> [] then [Line line] else [])"
| "emit_entries (entry # rest) idx doc_table line =
     (case doc_table idx of
        Some docs \<Rightarrow>
          (if line \<noteq> [] then [Line line] else []) @ map Comment docs @
          emit_entries rest (Suc idx) doc_table (format_alt_06x entry @ '', '')
      | None \<Rightarrow> emit_entries rest (Suc idx) doc_table (line @ format_alt_06x entry @ '', ''))"

definition emit_enclists :: "unique_seq_table \<Rightarrow> doc_table \<Rightarrow> src" where
  "emit_enclists seq_table doc_table =
     Indented (''const ENCLISTS: [u16; '' @ dec_nat (length (table seq_table)) @ ''] = ['')
       (emit_entries (table seq_table) 0 doc_table [])
       ''];''"


section \<open>The predicate dispatcher\<close>

text \<open>
  \<^verbatim>\<open>emit_instp\<close> writes one arm of the \<^verbatim>\<open>match\<close> in \<^verbatim>\<open>check_instp\<close>:
  \<^verbatim>\<open>N => { if let F { fields, .. } = *inst { return E; } }\<close>. The arm is kept as its four
  holes: the number \<open>N\<close>, the format name \<open>F\<close>, the field list and the expression
  \<open>E\<close>.
\<close>

datatype rust_arm = MatchArm int string string string

fun join :: "string \<Rightarrow> string list \<Rightarrow> string" where
  "join sep [] = []"
| "join sep [s] = s"
| "join sep (s # t # ss) = s @ sep @ join sep (t # ss)"

definition emit_instp :: "instp \<Rightarrow> rust_arm" where
  "emit_instp p =
     (let iform = predicate_context p;
          fields = (if boxed_storage iform then ''ref data''
                    else join '', '' (sort (remdups (predicate_leafs p))))
      in MatchArm (number p) (iform_name iform) fields (rust_predicate p))"

text \<open>
  \<^verbatim>\<open>emit_instps\<close> writes the function \<^verbatim>\<open>check_instp(inst, instp_idx: u16) -> bool\<close>: a
  \<^verbatim>\<open>match instp_idx\<close> with one arm for each predicate, in order, and the last arm
  \<^verbatim>\<open>_ => panic!("Invalid instruction predicate")\<close>; after the \<^verbatim>\<open>match\<close>, the statement
  \<^verbatim>\<open>panic!("Bad format {}/{} for instp {}", InstructionFormat::from(inst), inst.opcode(), instp_idx)\<close>.
  Only the arms vary, so the function text is the list of its arms.
\<close>

datatype rust_fn = CheckInstp "rust_arm list"

definition emit_instps :: "instp list \<Rightarrow> rust_fn" where
  "emit_instps instps = CheckInstp (map emit_instp instps)"

text \<open>
  What the emitted function does when it runs. An instruction is seen through the name
  of its format (the variant of \<^verbatim>\<open>InstructionData\<close>, which is what
  \<^verbatim>\<open>InstructionFormat::from(inst)\<close> displays) and the display of its opcode; \<open>ev\<close> gives
  the value of an arm's expression on an instruction of the arm's format. A \<^verbatim>\<open>match\<close>
  takes the first arm whose literal equals \<^verbatim>\<open>instp_idx\<close>; when the \<^verbatim>\<open>if let\<close> of that
  arm does not match the instruction, the arm ends without a \<^verbatim>\<open>return\<close> and control
  reaches the \<^verbatim>\<open>panic!\<close> after the \<^verbatim>\<open>match\<close>.
\<close>

record instruction_data =
  idata_format :: string
  idata_opcode :: string

datatype outcome = Return bool | Panic string

fun run_arms ::
  "(string \<Rightarrow> instruction_data \<Rightarrow> bool) \<Rightarrow> rust_arm list \<Rightarrow> instruction_data \<Rightarrow> 16 word \<Rightarrow> outcome"
where
  "run_arms ev [] idata instp_idx = Panic ''Invalid instruction predicate''"
| "run_arms ev (MatchArm n f fs e # arms) idata instp_idx =
     (if uint instp_idx = n then
        (if idata_format idata = f then Return (ev e idata)
         else Panic (''Bad format '' @ idata_format idata @ ''/'' @ idata_opcode idata @
                     '' for instp '' @ dec_nat (unat instp_idx)))
      else run_arms ev arms idata instp_idx)"

fun check_instp ::
  "(string \<Rightarrow> instruction_data \<Rightarrow> bool) \<Rightarrow> rust_fn \<Rightarrow> instruction_data \<Rightarrow> 16 word \<Rightarrow> outcome"
where
  "check_instp ev (CheckInstp arms) idata instp_idx = run_arms ev arms idata instp_idx"

section \<open>The driver\<close>

definition gen_isa :: "isa \<Rightarrow> error + (rust_fn \<times> src)" where
  "gen_isa i =
     (let f = emit_instps (all_instps i)
      in case encode_cpumodes (cpumodes i) UniqueSeqTable Map.empty of
           Inl e \<Rightarrow> Inl e
         | Inr (level1s, seq_table, doc_table) \<Rightarrow> Inr (f, emit_enclists seq_table doc_table))"

section \<open>The claims' vocabulary\<close>

text \<open>
  The word sequence of an encoding list as the specification words it: for each
  encoding in order, its instruction-predicate number if it has one, else 4095, then its
  recipe number, then its encoding bits; after the last, one word 65535.
\<close>

definition spec_pred_field :: "encoding \<Rightarrow> int" where
  "spec_pred_field e = (case enc_instp e of Some ip \<Rightarrow> number ip | None \<Rightarrow> 4095)"


definition spec_words :: "encoding list \<Rightarrow> int list" where
  "spec_words encs =
     concat (map (\<lambda>e. [spec_pred_field e, recipe_number e, encbits e]) encs) @ [65535]"

text \<open>
  The annotation of a candidate: the encoding, and its predicate when it has one; a
  list's candidates are annotated at the positions 0, 3, 6, ... of its words.
\<close>

definition spec_doc :: "encoding \<Rightarrow> string" where
  "spec_doc e =
     (case enc_instp e of
        Some ip \<Rightarrow> ''--> '' @ enc_str e @ '' when '' @ instp_str ip
      | None \<Rightarrow> ''--> '' @ enc_str e)"

fun spec_docs :: "nat \<Rightarrow> encoding list \<Rightarrow> (nat \<times> string) list" where
  "spec_docs pos [] = []"
| "spec_docs pos (e # es) = (pos, spec_doc e) # spec_docs (pos + 3) es"

text \<open>
  A word sequence ends with exactly one 65535, and 65535 occurs at no other position.
\<close>

definition fail_only_at_end :: "int list \<Rightarrow> bool" where
  "fail_only_at_end ws \<longleftrightarrow> ws \<noteq> [] \<and> last ws = 65535 \<and> 65535 \<notin> set (butlast ws)"

section \<open>A small instruction set\<close>

text \<open>
  One opcode \<open>Op\<close>, one controlling type \<open>T\<close>, a predicate \<open>P1\<close> with number 3, and two
  CPU modes with the same two encodings of \<open>Op.T\<close>: recipe 5 with bits 1 under \<open>P1\<close>,
  then recipe 7 with bits 2 unconditionally.
\<close>

definition ex_Op :: instruction where
  "ex_Op = \<lparr>inst_name = ''Op''\<rparr>"

definition ex_T :: value_type where
  "ex_T = \<lparr>ty_name = ''T''\<rparr>"

definition ex_P :: "int \<Rightarrow> instp" where
  "ex_P n = \<lparr>number = n, instp_str = ''P1'',
             predicate_context = \<lparr>iform_name = ''BinaryImm'', boxed_storage = False\<rparr>,
             predicate_leafs = [''imm''], rust_predicate = ''imm == 0''\<rparr>"

definition ex_enc ::
  "string \<Rightarrow> value_type option \<Rightarrow> instp option \<Rightarrow> int \<Rightarrow> int \<Rightarrow> encoding"
where
  "ex_enc m t p r b =
     \<lparr>enc_inst = ex_Op, ctrl_typevar = t, recipe_number = r, encbits = b, enc_instp = p,
      enc_str = ''R'', enc_cpumode = m\<rparr>"

definition ex_mode :: "string \<Rightarrow> cpumode" where
  "ex_mode m =
     \<lparr>cpumode_name = m,
      cpumode_encodings =
        [ex_enc m (Some ex_T) (Some (ex_P 3)) 5 1, ex_enc m (Some ex_T) None 7 2]\<rparr>"

text \<open>
  The encodings of one (controlling type, opcode) pair, and the state of the two-level
  table after the loop of \<^verbatim>\<open>make_tables\<close> has gone through the encodings \<open>encs\<close>: keys
  are distinct at both levels, a type has an entry exactly when one of \<open>encs\<close> has it,
  and an opcode has a list under it exactly when an encoding of the pair occurred; the
  list holds those encodings in their order.
\<close>

definition sel :: "value_type option \<Rightarrow> instruction \<Rightarrow> encoding \<Rightarrow> bool" where
  "sel t i e \<longleftrightarrow> ctrl_typevar e = t \<and> enc_inst e = i"

definition lists_inv :: "encoding list \<Rightarrow> value_type option \<Rightarrow> level2table \<Rightarrow> bool" where
  "lists_inv encs t tbl \<longleftrightarrow>
     tbl_ty tbl = t \<and> distinct (map fst (lists tbl)) \<and>
     (\<forall>i. map_of (lists tbl) i =
        (if filter (sel t i) encs = [] then None
         else Some \<lparr>inst = i, ty = t, encodings = filter (sel t i) encs, offset = None\<rparr>))"

definition table_inv :: "encoding list \<Rightarrow> level1table \<Rightarrow> bool" where
  "table_inv encs T \<longleftrightarrow>
     distinct (map fst (tables T)) \<and>
     (\<forall>t. case map_of (tables T) t of
            None \<Rightarrow> \<forall>e\<in>set encs. ctrl_typevar e \<noteq> t
          | Some tbl \<Rightarrow> (\<exists>e\<in>set encs. ctrl_typevar e = t) \<and> lists_inv encs t tbl)"

text \<open>
  A mode whose encodings interleave three (type, opcode) pairs: no type with \<open>Op\<close>,
  \<open>T\<close> with \<open>Op\<close>, no type with \<open>Op2\<close>, and no type with \<open>Op\<close> again.
\<close>

definition ex_Op2 :: instruction where
  "ex_Op2 = \<lparr>inst_name = ''Op2''\<rparr>"

definition ex_mixed :: cpumode where
  "ex_mixed =
     \<lparr>cpumode_name = ''M32'',
      cpumode_encodings =
        [ex_enc ''M32'' None None 1 10, ex_enc ''M32'' (Some ex_T) None 2 20,
         (ex_enc ''M32'' None None 3 30)\<lparr>enc_inst := ex_Op2\<rparr>,
         ex_enc ''M32'' None (Some (ex_P 3)) 4 40]\<rparr>"







section \<open>Facts about the word list\<close>

lemma CODE_ALWAYS_val: "CODE_ALWAYS = 4095"
  by (simp add: CODE_ALWAYS_def PRED_MASK_def PRED_BITS_def)

lemma CODE_FAIL_val: "CODE_FAIL = 65535"
  by (simp add: CODE_FAIL_def CODE_BITS_def)

lemma seq_doc_eq:
  "seq_doc e =
     (if spec_pred_field e \<le> 4095
      then Inr ((spec_pred_field e, recipe_number e, encbits e), spec_doc e)
      else Inl AssertionError)"
  by (simp add: seq_doc_def spec_pred_field_def spec_doc_def CODE_ALWAYS_val split: option.splits)

lemma encode_loop_eq:
  "encode_loop encs ws ds =
     (if \<forall>e\<in>set encs. spec_pred_field e \<le> 4095
      then Inr (ws @ concat (map (\<lambda>e. [spec_pred_field e, recipe_number e, encbits e]) encs),
                ds @ spec_docs (length ws) encs)
      else Inl AssertionError)"
proof (induction encs arbitrary: ws ds)
  case Nil
  show ?case by simp
next
  case (Cons e es)
  show ?case
    by (simp add: seq_doc_eq Cons.IH numeral_3_eq_3)
qed

lemma encode_words_eq:
  "encode_words encs =
     (if \<forall>e\<in>set encs. spec_pred_field e \<le> 4095
      then Inr (spec_words encs, spec_docs 0 encs)
      else Inl AssertionError)"
  by (simp add: encode_words_def encode_loop_eq spec_words_def CODE_FAIL_val)

lemma encode_words_InrD:
  assumes "encode_words encs = Inr (ws, docs)"
  shows "ws = spec_words encs" and "docs = spec_docs 0 encs"
    and "\<forall>e\<in>set encs. spec_pred_field e \<le> 4095"
  using assms by (auto simp: encode_words_eq split: if_splits)

lemma nth_triples:
  "i < length xs \<Longrightarrow>
     (concat (map (\<lambda>e. [f e, g e, h e]) xs) @ rest) ! (3 * i) = f (xs ! i) \<and>
     (concat (map (\<lambda>e. [f e, g e, h e]) xs) @ rest) ! (3 * i + 1) = g (xs ! i) \<and>
     (concat (map (\<lambda>e. [f e, g e, h e]) xs) @ rest) ! (3 * i + 2) = h (xs ! i)"
proof (induction xs arbitrary: i)
  case Nil
  then show ?case by simp
next
  case (Cons x xs)
  show ?case
  proof (cases i)
    case 0
    then show ?thesis by simp
  next
    case (Suc j)
    then have j: "j < length xs" using Cons.prems by simp
    have "3 * i = Suc (Suc (Suc (3 * j)))" using Suc by simp
    then show ?thesis using Cons.IH [OF j] Suc by simp
  qed
qed

lemma length_triples:
  "length (concat (map (\<lambda>e. [f e, g e, h e]) xs)) = 3 * length xs"
  by (induction xs) auto

lemma set_triples:
  "set (concat (map (\<lambda>e. [f e, g e, h e]) xs)) = f ` set xs \<union> g ` set xs \<union> h ` set xs"
  by (induction xs) auto

lemma length_spec_words: "length (spec_words encs) = 3 * length encs + 1"
  by (simp add: spec_words_def length_triples)

text \<open>
  Claim C1. Whenever \<^verbatim>\<open>EncList.encode\<close> builds its word list, the list is exactly, for
  each encoding in order, the predicate number (4095 when the encoding has no
  predicate), the recipe number and the encoding bits, followed by one 65535; it does
  build the list when every predicate number is at most 4095; and the two encodings
  (P1, recipe 5, bits 1), (no predicate, recipe 7, bits 2) give
  \<open>[P1's number, 5, 1, 4095, 7, 2, 65535]\<close>.
\<close>

theorem encode_words_sequence:
  "(encode_words encs = Inr (ws, docs) \<longrightarrow> ws = spec_words encs) \<and>
   ((\<forall>e\<in>set encs. \<forall>ip. enc_instp e = Some ip \<longrightarrow> number ip \<le> 4095) \<longrightarrow>
      (\<exists>ds. encode_words encs = Inr (spec_words encs, ds))) \<and>
   (enc_instp e1 = Some p1 \<and> number p1 \<le> 4095 \<and> recipe_number e1 = 5 \<and> encbits e1 = 1 \<and>
    enc_instp e2 = None \<and> recipe_number e2 = 7 \<and> encbits e2 = 2 \<longrightarrow>
      (\<exists>ds. encode_words [e1, e2] = Inr ([number p1, 5, 1, 4095, 7, 2, 65535], ds)))"
proof (intro conjI impI)
  assume "encode_words encs = Inr (ws, docs)"
  then show "ws = spec_words encs" by (rule encode_words_InrD)
next
  assume "\<forall>e\<in>set encs. \<forall>ip. enc_instp e = Some ip \<longrightarrow> number ip \<le> 4095"
  then have "\<forall>e\<in>set encs. spec_pred_field e \<le> 4095"
    by (auto simp: spec_pred_field_def split: option.splits)
  then show "\<exists>ds. encode_words encs = Inr (spec_words encs, ds)"
    by (simp add: encode_words_eq)
next
  assume "enc_instp e1 = Some p1 \<and> number p1 \<le> 4095 \<and> recipe_number e1 = 5 \<and> encbits e1 = 1 \<and>
    enc_instp e2 = None \<and> recipe_number e2 = 7 \<and> encbits e2 = 2"
  then show "\<exists>ds. encode_words [e1, e2] = Inr ([number p1, 5, 1, 4095, 7, 2, 65535], ds)"
    by (simp add: encode_words_eq spec_pred_field_def spec_words_def)
qed

theorem encode_words_sequence_witness:
  "encode_words (cpumode_encodings (ex_mode ''M32'')) =
     Inr ([3, 5, 1, 4095, 7, 2, 65535], [(0, ''--> R when P1''), (3, ''--> R'')]) \<and>
   spec_words (cpumode_encodings (ex_mode ''M32'')) = [3, 5, 1, 4095, 7, 2, 65535]"
  using encode_words_sequence
    [of "cpumode_encodings (ex_mode ''M32'')" "[3, 5, 1, 4095, 7, 2, 65535]"
        "[(0, ''--> R when P1''), (3, ''--> R'')]"
        "ex_enc ''M32'' (Some ex_T) (Some (ex_P 3)) 5 1" "ex_P 3"
        "ex_enc ''M32'' (Some ex_T) None 7 2"]
  by (simp add: encode_words_def seq_doc_def CODE_ALWAYS_val CODE_FAIL_val ex_mode_def
      ex_enc_def ex_P_def spec_words_def spec_pred_field_def)

text \<open>
  Claim C8. In every word list built by \<^verbatim>\<open>EncList.encode\<close> the first word of each
  candidate triple is at most 4095: no value of 4096..65534, the range of the
  ISA-predicate skip entries, stands in a predicate field.
\<close>

theorem encode_words_pred_fields:
  assumes "encode_words encs = Inr (ws, docs)"
  shows "length ws = 3 * length encs + 1 \<and>
         (\<forall>i<length encs. ws ! (3 * i) \<le> 4095 \<and> ws ! (3 * i) \<notin> {4096..65534})"
proof -
  have ws: "ws = spec_words encs" and le: "\<forall>e\<in>set encs. spec_pred_field e \<le> 4095"
    using assms by (rule encode_words_InrD)+
  have "ws ! (3 * i) \<le> 4095 \<and> ws ! (3 * i) \<notin> {4096..65534}" if "i < length encs" for i
  proof -
    have "ws ! (3 * i) = spec_pred_field (encs ! i)"
      using that nth_triples [of i encs spec_pred_field recipe_number encbits "[65535]"]
      by (simp add: ws spec_words_def)
    moreover have "spec_pred_field (encs ! i) \<le> 4095"
      using that le by simp
    ultimately show ?thesis by simp
  qed
  then show ?thesis
    by (simp add: ws length_spec_words)
qed

theorem encode_words_pred_fields_witness:
  "encode_words (cpumode_encodings (ex_mode ''M32'')) =
     Inr ([3, 5, 1, 4095, 7, 2, 65535], [(0, ''--> R when P1''), (3, ''--> R'')]) \<and>
   [3, 5, 1, 4095, 7, 2, 65535] ! 3 \<le> (4095 :: int)"
  using encode_words_pred_fields
    [of "cpumode_encodings (ex_mode ''M32'')" "[3, 5, 1, 4095, 7, 2, 65535]"
        "[(0, ''--> R when P1''), (3, ''--> R'')]"]
  by (simp add: encode_words_def seq_doc_def CODE_ALWAYS_val CODE_FAIL_val ex_mode_def
      ex_enc_def ex_P_def)

text \<open>
  Claim C3, as stated, fails: nothing checks recipe numbers or encoding bits, so an
  encoding with bits 65535 puts 65535 inside the list. What holds: the list ends with the
  one 65535 appended after the triples, no predicate field is 65535, the other two words
  of each triple are the encoding's recipe number and bits as given, and so 65535 occurs
  only at the end exactly when no recipe number and no encoding bits equal 65535.
\<close>

theorem fail_inside_counterexample:
  "encode_words [ex_enc ''M32'' None None 0 65535] = Inr ([4095, 0, 65535, 65535], [(0, ''--> R'')]) \<and>
   \<not> fail_only_at_end [4095, 0, 65535, 65535]"
  by (simp add: encode_words_def seq_doc_def CODE_ALWAYS_val CODE_FAIL_val ex_enc_def
      fail_only_at_end_def)

text \<open>
  Claim C3, amended: where 65535 can and cannot stand in the word list of an encoding
  list.
\<close>

theorem encode_words_fail_positions:
  assumes "encode_words encs = Inr (ws, docs)"
  shows "ws \<noteq> [] \<and> last ws = 65535 \<and> length ws = 3 * length encs + 1 \<and>
         (\<forall>i<length encs. ws ! (3 * i) \<noteq> 65535 \<and>
            ws ! (3 * i + 1) = recipe_number (encs ! i) \<and>
            ws ! (3 * i + 2) = encbits (encs ! i)) \<and>
         (fail_only_at_end ws \<longleftrightarrow>
            (\<forall>e\<in>set encs. recipe_number e \<noteq> 65535 \<and> encbits e \<noteq> 65535))"
proof -
  have ws: "ws = spec_words encs" and le: "\<forall>e\<in>set encs. spec_pred_field e \<le> 4095"
    using assms by (rule encode_words_InrD)+
  have nth: "ws ! (3 * i) \<noteq> 65535 \<and> ws ! (3 * i + 1) = recipe_number (encs ! i) \<and>
      ws ! (3 * i + 2) = encbits (encs ! i)" if "i < length encs" for i
  proof -
    have "spec_pred_field (encs ! i) \<le> 4095" using that le by simp
    then show ?thesis
      using that nth_triples [of i encs spec_pred_field recipe_number encbits "[65535]"]
      by (simp add: ws spec_words_def)
  qed
  have "65535 \<notin> spec_pred_field ` set encs" using le by force
  then have "fail_only_at_end ws \<longleftrightarrow>
      (\<forall>e\<in>set encs. recipe_number e \<noteq> 65535 \<and> encbits e \<noteq> 65535)"
    by (auto simp: fail_only_at_end_def ws spec_words_def set_triples)
  then show ?thesis
    using nth by (simp add: ws length_spec_words) (simp add: spec_words_def)
qed

theorem encode_words_fail_positions_witness:
  "encode_words (cpumode_encodings (ex_mode ''M32'')) =
     Inr ([3, 5, 1, 4095, 7, 2, 65535], [(0, ''--> R when P1''), (3, ''--> R'')]) \<and>
   fail_only_at_end [3, 5, 1, 4095, 7, 2, 65535]"
  using encode_words_fail_positions
    [of "cpumode_encodings (ex_mode ''M32'')" "[3, 5, 1, 4095, 7, 2, 65535]"
        "[(0, ''--> R when P1''), (3, ''--> R'')]"]
  by (simp add: encode_words_def seq_doc_def CODE_ALWAYS_val CODE_FAIL_val ex_mode_def
      ex_enc_def ex_P_def)

text \<open>
  Claim C2. The assertion of \<^verbatim>\<open>seq_doc\<close> is \<^verbatim>\<open>p <= CODE_ALWAYS\<close>: a predicate with
  number 4095 passes it and is emitted as the word 4095, which is the always-true code.
\<close>

theorem predicate_number_always_emitted:
  "encode_words [ex_enc ''M32'' (Some ex_T) (Some (ex_P 4095)) 5 1] =
     Inr ([4095, 5, 1, 65535], [(0, ''--> R when P1'')])"
  by (simp add: encode_words_def seq_doc_def CODE_ALWAYS_val CODE_FAIL_val ex_enc_def ex_P_def)

section \<open>Facts about the two-level table\<close>

lemma append_encoding_eq:
  "append_encoding T e =
     (let t = ctrl_typevar e; i = enc_inst e;
          tbl = (case map_of (tables T) t of Some tbl \<Rightarrow> tbl | None \<Rightarrow> Level2Table t);
          ls = (case map_of (lists tbl) i of Some ls \<Rightarrow> ls | None \<Rightarrow> EncList i (tbl_ty tbl))
      in T\<lparr>tables := AList.update t
              (tbl\<lparr>lists := AList.update i (ls\<lparr>encodings := encodings ls @ [e]\<rparr>) (lists tbl)\<rparr>)
              (tables T)\<rparr>)"
  by (simp add: append_encoding_def level1_getitem_def level2_getitem_def Let_def
      split: option.splits)

lemma table_inv_empty: "table_inv [] Level1Table"
  by (simp add: table_inv_def Level1Table_def)

lemma lists_inv_fresh:
  assumes "\<forall>e\<in>set encs. ctrl_typevar e \<noteq> t"
  shows "lists_inv encs t (Level2Table t)"
proof -
  have "filter (sel t i) encs = []" for i
    using assms by (auto simp: sel_def filter_empty_conv)
  then show ?thesis by (simp add: lists_inv_def Level2Table_def)
qed

lemma lists_inv_other:
  assumes "lists_inv encs t tbl" and "ctrl_typevar e \<noteq> t"
  shows "lists_inv (encs @ [e]) t tbl"
proof -
  have "filter (sel t i) (encs @ [e]) = filter (sel t i) encs" for i
    using assms(2) by (simp add: sel_def)
  then show ?thesis using assms(1) by (simp add: lists_inv_def)
qed

lemma lists_inv_append:
  assumes inv: "lists_inv encs t tbl" and t: "ctrl_typevar e = t"
  defines "ls \<equiv> (case map_of (lists tbl) (enc_inst e) of
                   Some ls \<Rightarrow> ls | None \<Rightarrow> EncList (enc_inst e) (tbl_ty tbl))"
  shows "lists_inv (encs @ [e]) t
           (tbl\<lparr>lists := AList.update (enc_inst e) (ls\<lparr>encodings := encodings ls @ [e]\<rparr>)
                            (lists tbl)\<rparr>)"
proof -
  have ty: "tbl_ty tbl = t" and d: "distinct (map fst (lists tbl))"
    and m: "\<And>i. map_of (lists tbl) i =
        (if filter (sel t i) encs = [] then None
         else Some \<lparr>inst = i, ty = t, encodings = filter (sel t i) encs, offset = None\<rparr>)"
    using inv by (simp_all add: lists_inv_def)
  have ls: "ls = \<lparr>inst = enc_inst e, ty = t, encodings = filter (sel t (enc_inst e)) encs,
                  offset = None\<rparr>"
    by (simp add: ls_def m ty EncList_def)
  have here: "filter (sel t (enc_inst e)) (encs @ [e]) = filter (sel t (enc_inst e)) encs @ [e]"
    using t by (simp add: sel_def)
  have there: "filter (sel t i) (encs @ [e]) = filter (sel t i) encs" if "i \<noteq> enc_inst e" for i
    using that by (auto simp: sel_def)
  show ?thesis
    unfolding lists_inv_def
  proof (intro conjI allI)
    show "tbl_ty (tbl\<lparr>lists := AList.update (enc_inst e) (ls\<lparr>encodings := encodings ls @ [e]\<rparr>)
                            (lists tbl)\<rparr>) = t"
      by (simp add: ty)
    show "distinct (map fst (lists (tbl\<lparr>lists := AList.update (enc_inst e)
              (ls\<lparr>encodings := encodings ls @ [e]\<rparr>) (lists tbl)\<rparr>)))"
      by (simp add: d AList.distinct_update)
    fix i
    show "map_of (lists (tbl\<lparr>lists := AList.update (enc_inst e)
              (ls\<lparr>encodings := encodings ls @ [e]\<rparr>) (lists tbl)\<rparr>)) i =
        (if filter (sel t i) (encs @ [e]) = [] then None
         else Some \<lparr>inst = i, ty = t, encodings = filter (sel t i) (encs @ [e]), offset = None\<rparr>)"
    proof (cases "i = enc_inst e")
      case True
      then show ?thesis using t by (simp add: AList.update_conv' ls sel_def)
    next
      case False
      then show ?thesis by (auto simp: AList.update_conv' m sel_def)
    qed
  qed
qed

lemma table_inv_step:
  assumes inv: "table_inv encs T"
  shows "table_inv (encs @ [e]) (append_encoding T e)"
proof -
  define t where "t = ctrl_typevar e"
  define tbl where "tbl = (case map_of (tables T) t of Some tbl \<Rightarrow> tbl | None \<Rightarrow> Level2Table t)"
  define ls where "ls = (case map_of (lists tbl) (enc_inst e) of
                   Some ls \<Rightarrow> ls | None \<Rightarrow> EncList (enc_inst e) (tbl_ty tbl))"
  define tbl' where "tbl' = tbl\<lparr>lists := AList.update (enc_inst e)
                      (ls\<lparr>encodings := encodings ls @ [e]\<rparr>) (lists tbl)\<rparr>"
  have T': "append_encoding T e = T\<lparr>tables := AList.update t tbl' (tables T)\<rparr>"
    unfolding tbl'_def ls_def tbl_def t_def by (simp add: append_encoding_eq Let_def)
  have d: "distinct (map fst (tables T))"
    and each: "\<And>u. case map_of (tables T) u of
            None \<Rightarrow> \<forall>e\<in>set encs. ctrl_typevar e \<noteq> u
          | Some tbl \<Rightarrow> (\<exists>e\<in>set encs. ctrl_typevar e = u) \<and> lists_inv encs u tbl"
    using inv by (simp_all add: table_inv_def)
  have "lists_inv encs t tbl"
    using each [of t] by (auto simp: tbl_def lists_inv_fresh split: option.splits)
  then have new: "lists_inv (encs @ [e]) t tbl'"
    unfolding tbl'_def ls_def by (rule lists_inv_append) (simp add: t_def)
  show ?thesis
    unfolding table_inv_def T'
  proof (intro conjI allI)
    show "distinct (map fst (tables (T\<lparr>tables := AList.update t tbl' (tables T)\<rparr>)))"
      by (simp add: d AList.distinct_update)
    fix u
    show "case map_of (tables (T\<lparr>tables := AList.update t tbl' (tables T)\<rparr>)) u of
            None \<Rightarrow> \<forall>e\<in>set (encs @ [e]). ctrl_typevar e \<noteq> u
          | Some tbl \<Rightarrow> (\<exists>e\<in>set (encs @ [e]). ctrl_typevar e = u) \<and> lists_inv (encs @ [e]) u tbl"
    proof (cases "u = t")
      case True
      then show ?thesis using new by (simp add: AList.update_conv' t_def)
    next
      case False
      then have "ctrl_typevar e \<noteq> u" by (simp add: t_def)
      then show ?thesis
        using each [of u] False
        by (auto simp: AList.update_conv' lists_inv_other split: option.splits)
    qed
  qed
qed

lemma table_inv_foldl:
  "table_inv encs T \<Longrightarrow> table_inv (encs @ es) (foldl append_encoding T es)"
proof (induction es arbitrary: encs T)
  case Nil
  then show ?case by simp
next
  case (Cons e es)
  have "table_inv ((encs @ [e]) @ es) (foldl append_encoding (append_encoding T e) es)"
    by (rule Cons.IH) (rule table_inv_step [OF Cons.prems])
  then show ?case by simp
qed

lemma table_inv_make_tables: "table_inv (cpumode_encodings cm) (make_tables cm)"
  using table_inv_foldl [OF table_inv_empty, of "cpumode_encodings cm"]
  by (simp add: make_tables_def)

lemma make_tables_level1:
  assumes "(t, tbl) \<in> set (tables (make_tables cm))"
  shows "lists_inv (cpumode_encodings cm) t tbl"
    and "\<exists>e\<in>set (cpumode_encodings cm). ctrl_typevar e = t"
proof -
  have inv: "table_inv (cpumode_encodings cm) (make_tables cm)"
    by (rule table_inv_make_tables)
  then have "distinct (map fst (tables (make_tables cm)))"
    by (simp add: table_inv_def)
  then have "map_of (tables (make_tables cm)) t = Some tbl"
    using assms by simp
  moreover have "case map_of (tables (make_tables cm)) t of
            None \<Rightarrow> \<forall>e\<in>set (cpumode_encodings cm). ctrl_typevar e \<noteq> t
          | Some tbl \<Rightarrow> (\<exists>e\<in>set (cpumode_encodings cm). ctrl_typevar e = t) \<and>
              lists_inv (cpumode_encodings cm) t tbl"
    using inv by (simp add: table_inv_def)
  ultimately show "lists_inv (cpumode_encodings cm) t tbl"
    and "\<exists>e\<in>set (cpumode_encodings cm). ctrl_typevar e = t"
    by simp_all
qed

lemma make_tables_level2:
  assumes "(t, tbl) \<in> set (tables (make_tables cm))" and "(i, ls) \<in> set (lists tbl)"
  shows "ls = \<lparr>inst = i, ty = t, encodings = filter (sel t i) (cpumode_encodings cm),
               offset = None\<rparr>"
    and "filter (sel t i) (cpumode_encodings cm) \<noteq> []"
proof -
  have inv: "lists_inv (cpumode_encodings cm) t tbl"
    using assms(1) by (rule make_tables_level1)
  then have "distinct (map fst (lists tbl))" by (simp add: lists_inv_def)
  then have "map_of (lists tbl) i = Some ls" using assms(2) by simp
  moreover have "map_of (lists tbl) i =
        (if filter (sel t i) (cpumode_encodings cm) = [] then None
         else Some \<lparr>inst = i, ty = t, encodings = filter (sel t i) (cpumode_encodings cm),
                    offset = None\<rparr>)"
    using inv by (simp add: lists_inv_def)
  ultimately show "ls = \<lparr>inst = i, ty = t, encodings = filter (sel t i) (cpumode_encodings cm),
               offset = None\<rparr>"
    and "filter (sel t i) (cpumode_encodings cm) \<noteq> []"
    by (auto split: if_splits)
qed

lemma make_tables_ex_mixed:
  "make_tables ex_mixed =
     \<lparr>tables =
        [(None, \<lparr>tbl_ty = None, lists =
            [(ex_Op, \<lparr>inst = ex_Op, ty = None,
                encodings = [ex_enc ''M32'' None None 1 10, ex_enc ''M32'' None (Some (ex_P 3)) 4 40],
                offset = None\<rparr>),
             (ex_Op2, \<lparr>inst = ex_Op2, ty = None,
                encodings = [(ex_enc ''M32'' None None 3 30)\<lparr>enc_inst := ex_Op2\<rparr>],
                offset = None\<rparr>)]\<rparr>),
         (Some ex_T, \<lparr>tbl_ty = Some ex_T, lists =
            [(ex_Op, \<lparr>inst = ex_Op, ty = Some ex_T,
                encodings = [ex_enc ''M32'' (Some ex_T) None 2 20], offset = None\<rparr>)]\<rparr>)]\<rparr>"
  by (simp add: make_tables_def ex_mixed_def append_encoding_eq Let_def Level1Table_def
      Level2Table_def EncList_def ex_enc_def ex_Op_def ex_Op2_def ex_T_def)

lemma filter_fst_le_1:
  "distinct (map fst al) \<Longrightarrow> length (filter (\<lambda>p. fst p = k) al) \<le> 1"
proof (induction al)
  case Nil
  then show ?case by simp
next
  case (Cons p al)
  show ?case
  proof (cases "fst p = k")
    case True
    then have "k \<notin> fst ` set al" using Cons.prems by auto
    then have "filter (\<lambda>p. fst p = k) al = []"
      by (auto simp: filter_empty_conv)
    then show ?thesis using True by simp
  next
    case False
    then show ?thesis using Cons by simp
  qed
qed

lemma level1_getitem_again:
  "level1_getitem (snd (level1_getitem T t)) t = level1_getitem T t"
  by (simp add: level1_getitem_def Let_def AList.update_conv' split: option.splits)

lemma level2_getitem_again:
  "level2_getitem (snd (level2_getitem L i)) i = level2_getitem L i"
  by (simp add: level2_getitem_def Let_def AList.update_conv' split: option.splits)

text \<open>
  Claim C4. Nothing is sorted: the encoding list found under a controlling type and an
  opcode in the table of \<^verbatim>\<open>make_tables\<close> holds exactly the encodings of the CPU mode with
  that type and opcode, in the order they have in the mode, and the word list that
  \<^verbatim>\<open>EncList.encode\<close> builds from it is their triples in that same order.
\<close>

theorem make_tables_keeps_order:
  assumes "(t, tbl) \<in> set (tables (make_tables cm))" and "(i, ls) \<in> set (lists tbl)"
  shows "encodings ls = filter (sel t i) (cpumode_encodings cm) \<and>
         (\<forall>ws docs. encode_words (encodings ls) = Inr (ws, docs) \<longrightarrow>
            ws = spec_words (filter (sel t i) (cpumode_encodings cm)))"
proof -
  have ls: "encodings ls = filter (sel t i) (cpumode_encodings cm)"
    using make_tables_level2 (1) [OF assms] by simp
  show ?thesis
    using ls encode_words_InrD (1) [of "encodings ls"] by auto
qed

theorem make_tables_keeps_order_witness:
  "(None, \<lparr>tbl_ty = None, lists =
            [(ex_Op, \<lparr>inst = ex_Op, ty = None,
                encodings = [ex_enc ''M32'' None None 1 10, ex_enc ''M32'' None (Some (ex_P 3)) 4 40],
                offset = None\<rparr>),
             (ex_Op2, \<lparr>inst = ex_Op2, ty = None,
                encodings = [(ex_enc ''M32'' None None 3 30)\<lparr>enc_inst := ex_Op2\<rparr>],
                offset = None\<rparr>)]\<rparr>) \<in> set (tables (make_tables ex_mixed)) \<and>
   filter (sel None ex_Op) (cpumode_encodings ex_mixed) =
     [ex_enc ''M32'' None None 1 10, ex_enc ''M32'' None (Some (ex_P 3)) 4 40] \<and>
   encode_words [ex_enc ''M32'' None None 1 10, ex_enc ''M32'' None (Some (ex_P 3)) 4 40] =
     Inr ([4095, 1, 10, 3, 4, 40, 65535], [(0, ''--> R''), (3, ''--> R when P1'')]) \<and>
   spec_words (filter (sel None ex_Op) (cpumode_encodings ex_mixed)) =
     [4095, 1, 10, 3, 4, 40, 65535]"
  using make_tables_keeps_order
    [of None "\<lparr>tbl_ty = None, lists =
            [(ex_Op, \<lparr>inst = ex_Op, ty = None,
                encodings = [ex_enc ''M32'' None None 1 10, ex_enc ''M32'' None (Some (ex_P 3)) 4 40],
                offset = None\<rparr>),
             (ex_Op2, \<lparr>inst = ex_Op2, ty = None,
                encodings = [(ex_enc ''M32'' None None 3 30)\<lparr>enc_inst := ex_Op2\<rparr>],
                offset = None\<rparr>)]\<rparr>" ex_mixed ex_Op
       "\<lparr>inst = ex_Op, ty = None,
                encodings = [ex_enc ''M32'' None None 1 10, ex_enc ''M32'' None (Some (ex_P 3)) 4 40],
                offset = None\<rparr>"]
  by (simp add: make_tables_ex_mixed)
    (simp add: encode_words_def seq_doc_def CODE_ALWAYS_val CODE_FAIL_val ex_enc_def ex_P_def
      ex_mixed_def sel_def ex_Op_def ex_Op2_def spec_words_def spec_pred_field_def)

lemma update_absent: "map_of al k = None \<Longrightarrow> AList.update k v al = al @ [(k, v)]"
  by (induction al) (auto split: if_splits)

lemma level1_getitem_present:
  "map_of (tables T) t = Some tbl \<Longrightarrow> level1_getitem T t = (tbl, T)"
  by (simp add: level1_getitem_def)

lemma level1_getitem_absent:
  "map_of (tables T) t = None \<Longrightarrow>
     level1_getitem T t = (Level2Table t, T\<lparr>tables := tables T @ [(t, Level2Table t)]\<rparr>)"
  by (simp add: level1_getitem_def Let_def update_absent)

lemma level2_getitem_present:
  "map_of (lists L) i = Some ls \<Longrightarrow> level2_getitem L i = (ls, L)"
  by (simp add: level2_getitem_def)

lemma level2_getitem_absent:
  "map_of (lists L) i = None \<Longrightarrow>
     level2_getitem L i =
       (EncList i (tbl_ty L), L\<lparr>lists := lists L @ [(i, EncList i (tbl_ty L))]\<rparr>)"
  by (simp add: level2_getitem_def Let_def update_absent)

lemma level1_getitem_stored:
  "map_of (tables (snd (level1_getitem T t))) t = Some (fst (level1_getitem T t))"
  by (simp add: level1_getitem_def Let_def AList.update_conv' split: option.splits)

lemma level2_getitem_stored:
  "map_of (lists (snd (level2_getitem L i))) i = Some (fst (level2_getitem L i))"
  by (simp add: level2_getitem_def Let_def AList.update_conv' split: option.splits)

lemma level1_getitem_distinct:
  "distinct (map fst (tables T)) \<Longrightarrow> distinct (map fst (tables (snd (level1_getitem T t))))"
  by (simp add: level1_getitem_def Let_def AList.distinct_update split: option.splits)

lemma level2_getitem_distinct:
  "distinct (map fst (lists L)) \<Longrightarrow> distinct (map fst (lists (snd (level2_getitem L i))))"
  by (simp add: level2_getitem_def Let_def AList.distinct_update split: option.splits)

text \<open>
  Claim C5. The level-1 keys of the table of \<^verbatim>\<open>make_tables\<close> are distinct, so at most one
  entry has the key \<^verbatim>\<open>None\<close>; every encoding without controlling type is in that entry's
  level-2 table, whose opcode keys are distinct too, in the list under its opcode. A
  lookup keeps the container it returns under the key: a key already present gives the
  container stored there and leaves the table as it is, a missing key gives a new empty
  container that is added once, at the end, under that key; so a lookup repeated on
  the same key returns the same container and leaves the table as the first lookup left
  it, and distinct keys stay distinct.
\<close>

theorem no_type_entry_shared:
  "distinct (map fst (tables (make_tables cm))) \<and>
   length (filter (\<lambda>p. fst p = None) (tables (make_tables cm))) \<le> 1 \<and>
   (\<forall>e\<in>set (cpumode_encodings cm). ctrl_typevar e = None \<longrightarrow>
      (\<exists>tbl ls. (None, tbl) \<in> set (tables (make_tables cm)) \<and> tbl_ty tbl = None \<and>
         distinct (map fst (lists tbl)) \<and>
         (enc_inst e, ls) \<in> set (lists tbl) \<and> e \<in> set (encodings ls))) \<and>
   level1_getitem (snd (level1_getitem T t)) t = level1_getitem T t \<and>
   level2_getitem (snd (level2_getitem L i)) i = level2_getitem L i \<and>
   map_of (tables (snd (level1_getitem T t))) t = Some (fst (level1_getitem T t)) \<and>
   map_of (lists (snd (level2_getitem L i))) i = Some (fst (level2_getitem L i)) \<and>
   (map_of (tables T) t = Some tbl0 \<longrightarrow> level1_getitem T t = (tbl0, T)) \<and>
   (map_of (tables T) t = None \<longrightarrow>
      level1_getitem T t = (Level2Table t, T\<lparr>tables := tables T @ [(t, Level2Table t)]\<rparr>)) \<and>
   (map_of (lists L) i = Some ls0 \<longrightarrow> level2_getitem L i = (ls0, L)) \<and>
   (map_of (lists L) i = None \<longrightarrow>
      level2_getitem L i =
        (EncList i (tbl_ty L), L\<lparr>lists := lists L @ [(i, EncList i (tbl_ty L))]\<rparr>)) \<and>
   (distinct (map fst (tables T)) \<longrightarrow>
      distinct (map fst (tables (snd (level1_getitem T t))))) \<and>
   (distinct (map fst (lists L)) \<longrightarrow>
      distinct (map fst (lists (snd (level2_getitem L i)))))"
proof -
  have inv: "table_inv (cpumode_encodings cm) (make_tables cm)"
    by (rule table_inv_make_tables)
  then have d: "distinct (map fst (tables (make_tables cm)))"
    by (simp add: table_inv_def)
  then have one: "length (filter (\<lambda>p. fst p = None) (tables (make_tables cm))) \<le> 1"
    by (rule filter_fst_le_1)
  have grouped: "\<exists>tbl ls. (None, tbl) \<in> set (tables (make_tables cm)) \<and> tbl_ty tbl = None \<and>
         distinct (map fst (lists tbl)) \<and>
         (enc_inst e, ls) \<in> set (lists tbl) \<and> e \<in> set (encodings ls)"
    if e: "e \<in> set (cpumode_encodings cm)" and none: "ctrl_typevar e = None" for e
  proof -
    have "case map_of (tables (make_tables cm)) None of
            None \<Rightarrow> \<forall>e\<in>set (cpumode_encodings cm). ctrl_typevar e \<noteq> None
          | Some tbl \<Rightarrow> (\<exists>e\<in>set (cpumode_encodings cm). ctrl_typevar e = None) \<and>
              lists_inv (cpumode_encodings cm) None tbl"
      using inv by (simp add: table_inv_def)
    then obtain tbl where tbl: "map_of (tables (make_tables cm)) None = Some tbl"
      and l: "lists_inv (cpumode_encodings cm) None tbl"
      using e none by (auto split: option.splits)
    have ne: "filter (sel None (enc_inst e)) (cpumode_encodings cm) \<noteq> []"
      using e none by (auto simp: filter_empty_conv sel_def)
    define ls where "ls = \<lparr>inst = enc_inst e, ty = None,
      encodings = filter (sel None (enc_inst e)) (cpumode_encodings cm), offset = None\<rparr>"
    have "map_of (lists tbl) (enc_inst e) = Some ls"
      using l ne by (simp add: lists_inv_def ls_def)
    then have "(enc_inst e, ls) \<in> set (lists tbl)" by (rule map_of_SomeD)
    moreover have "e \<in> set (encodings ls)" using e none by (simp add: ls_def sel_def)
    moreover have "(None, tbl) \<in> set (tables (make_tables cm))"
      using tbl by (rule map_of_SomeD)
    moreover have "tbl_ty tbl = None" "distinct (map fst (lists tbl))"
      using l by (simp_all add: lists_inv_def)
    ultimately show ?thesis by blast
  qed
  show ?thesis
    using d one grouped
      level1_getitem_again [of T t] level2_getitem_again [of L i]
      level1_getitem_stored [of T t] level2_getitem_stored [of L i]
      level1_getitem_present [of T t tbl0] level1_getitem_absent [of T t]
      level2_getitem_present [of L i ls0] level2_getitem_absent [of L i]
      level1_getitem_distinct [of T t] level2_getitem_distinct [of L i]
    by blast
qed

theorem no_type_entry_shared_witness:
  "map fst (tables (make_tables ex_mixed)) = [None, Some ex_T] \<and>
   map (\<lambda>p. map fst (lists (snd p))) (filter (\<lambda>p. fst p = None) (tables (make_tables ex_mixed))) =
     [[ex_Op, ex_Op2]] \<and>
   ctrl_typevar ((ex_enc ''M32'' None None 3 30)\<lparr>enc_inst := ex_Op2\<rparr>) = None \<and>
   (ex_enc ''M32'' None None 3 30)\<lparr>enc_inst := ex_Op2\<rparr> \<in> set (cpumode_encodings ex_mixed) \<and>
   level1_getitem (make_tables ex_mixed) None =
     (\<lparr>tbl_ty = None, lists =
            [(ex_Op, \<lparr>inst = ex_Op, ty = None,
                encodings = [ex_enc ''M32'' None None 1 10, ex_enc ''M32'' None (Some (ex_P 3)) 4 40],
                offset = None\<rparr>),
             (ex_Op2, \<lparr>inst = ex_Op2, ty = None,
                encodings = [(ex_enc ''M32'' None None 3 30)\<lparr>enc_inst := ex_Op2\<rparr>],
                offset = None\<rparr>)]\<rparr>, make_tables ex_mixed) \<and>
   map_of (tables (make_tables ex_mixed)) (Some \<lparr>ty_name = ''U''\<rparr>) = None \<and>
   fst (level1_getitem (make_tables ex_mixed) (Some \<lparr>ty_name = ''U''\<rparr>)) =
     \<lparr>tbl_ty = Some \<lparr>ty_name = ''U''\<rparr>, lists = []\<rparr> \<and>
   map fst (tables (snd (level1_getitem (make_tables ex_mixed) (Some \<lparr>ty_name = ''U''\<rparr>)))) =
     [None, Some ex_T, Some \<lparr>ty_name = ''U''\<rparr>] \<and>
   map_of (tables (snd (level1_getitem (make_tables ex_mixed) (Some \<lparr>ty_name = ''U''\<rparr>))))
       (Some \<lparr>ty_name = ''U''\<rparr>) =
     Some \<lparr>tbl_ty = Some \<lparr>ty_name = ''U''\<rparr>, lists = []\<rparr> \<and>
   level2_getitem \<lparr>tbl_ty = Some ex_T, lists = []\<rparr> ex_Op =
     (\<lparr>inst = ex_Op, ty = Some ex_T, encodings = [], offset = None\<rparr>,
      \<lparr>tbl_ty = Some ex_T, lists =
         [(ex_Op, \<lparr>inst = ex_Op, ty = Some ex_T, encodings = [], offset = None\<rparr>)]\<rparr>) \<and>
   level2_getitem
     \<lparr>tbl_ty = Some ex_T, lists =
        [(ex_Op, \<lparr>inst = ex_Op, ty = Some ex_T, encodings = [], offset = None\<rparr>)]\<rparr> ex_Op =
     (\<lparr>inst = ex_Op, ty = Some ex_T, encodings = [], offset = None\<rparr>,
      \<lparr>tbl_ty = Some ex_T, lists =
         [(ex_Op, \<lparr>inst = ex_Op, ty = Some ex_T, encodings = [], offset = None\<rparr>)]\<rparr>)"
  using no_type_entry_shared
      [of ex_mixed "make_tables ex_mixed" None
          "\<lparr>tbl_ty = Some ex_T, lists = []\<rparr>" ex_Op
          "\<lparr>tbl_ty = None, lists =
            [(ex_Op, \<lparr>inst = ex_Op, ty = None,
                encodings = [ex_enc ''M32'' None None 1 10, ex_enc ''M32'' None (Some (ex_P 3)) 4 40],
                offset = None\<rparr>),
             (ex_Op2, \<lparr>inst = ex_Op2, ty = None,
                encodings = [(ex_enc ''M32'' None None 3 30)\<lparr>enc_inst := ex_Op2\<rparr>],
                offset = None\<rparr>)]\<rparr>"
          "\<lparr>inst = ex_Op, ty = Some ex_T, encodings = [], offset = None\<rparr>"]
    no_type_entry_shared
      [of ex_mixed "make_tables ex_mixed" "Some \<lparr>ty_name = ''U''\<rparr>"
          "\<lparr>tbl_ty = Some ex_T, lists =
            [(ex_Op, \<lparr>inst = ex_Op, ty = Some ex_T, encodings = [], offset = None\<rparr>)]\<rparr>" ex_Op
          "\<lparr>tbl_ty = None, lists = []\<rparr>"
          "\<lparr>inst = ex_Op, ty = Some ex_T, encodings = [], offset = None\<rparr>"]
  by (simp add: make_tables_ex_mixed level1_getitem_def level2_getitem_def Level2Table_def
      EncList_def ex_T_def)
    (simp add: ex_mixed_def ex_enc_def)

text \<open>
  Claim C9. Every encoding list in the table returned by \<^verbatim>\<open>make_tables\<close> holds at least
  one encoding.
\<close>

theorem make_tables_lists_nonempty:
  assumes "(t, tbl) \<in> set (tables (make_tables cm))" and "(i, ls) \<in> set (lists tbl)"
  shows "encodings ls \<noteq> []"
  using make_tables_level2 [OF assms] by simp

theorem make_tables_lists_nonempty_witness:
  "(Some ex_T, \<lparr>tbl_ty = Some ex_T, lists =
            [(ex_Op, \<lparr>inst = ex_Op, ty = Some ex_T,
                encodings = [ex_enc ''M32'' (Some ex_T) None 2 20], offset = None\<rparr>)]\<rparr>)
     \<in> set (tables (make_tables ex_mixed)) \<and>
   encodings \<lparr>inst = ex_Op, ty = Some ex_T,
                encodings = [ex_enc ''M32'' (Some ex_T) None 2 20], offset = None\<rparr> \<noteq> []"
  using make_tables_lists_nonempty
    [of "Some ex_T" "\<lparr>tbl_ty = Some ex_T, lists =
            [(ex_Op, \<lparr>inst = ex_Op, ty = Some ex_T,
                encodings = [ex_enc ''M32'' (Some ex_T) None 2 20], offset = None\<rparr>)]\<rparr>"
        ex_mixed ex_Op
        "\<lparr>inst = ex_Op, ty = Some ex_T,
                encodings = [ex_enc ''M32'' (Some ex_T) None 2 20], offset = None\<rparr>"]
  by (simp add: make_tables_ex_mixed)

section \<open>Facts about the predicate dispatcher\<close>

lemma run_arms_unregistered:
  "uint idx \<notin> number ` set instps \<Longrightarrow>
     run_arms ev (map emit_instp instps) d idx = Panic ''Invalid instruction predicate''"
  by (induction instps) (auto simp: emit_instp_def Let_def)

lemma run_arms_registered:
  assumes "distinct (map number instps)" and "p \<in> set instps" and "uint idx = number p"
  shows "run_arms ev (map emit_instp instps) d idx =
     (if idata_format d = iform_name (predicate_context p)
      then Return (ev (rust_predicate p) d)
      else Panic (''Bad format '' @ idata_format d @ ''/'' @ idata_opcode d @
                  '' for instp '' @ dec_nat (unat idx)))"
  using assms
proof (induction instps)
  case Nil
  then show ?case by simp
next
  case (Cons q qs)
  show ?case
  proof (cases "q = p")
    case True
    then show ?thesis using Cons.prems by (simp add: emit_instp_def Let_def)
  next
    case False
    then have p: "p \<in> set qs" using Cons.prems by simp
    then have "number q \<noteq> number p" using Cons.prems by auto
    then show ?thesis
      using Cons.IH [OF _ p] Cons.prems by (simp add: emit_instp_def Let_def)
  qed
qed

text \<open>
  Claim C7. The emitted \<^verbatim>\<open>check_instp\<close>, with predicates of distinct numbers: called with
  the number of a registered predicate on an instruction of that predicate's format, it
  returns the value of the predicate's expression; called with a number that no
  predicate has, it panics with \<^verbatim>\<open>Invalid instruction predicate\<close>; called with a
  registered number on an instruction of another format, it panics with the message
  that names the instruction's format, its opcode and the number.
\<close>

theorem check_instp_outcomes:
  assumes "distinct (map number instps)"
  shows "(p \<in> set instps \<and> uint idx = number p \<and>
            idata_format d = iform_name (predicate_context p) \<longrightarrow>
          check_instp ev (emit_instps instps) d idx = Return (ev (rust_predicate p) d)) \<and>
         (uint idx \<notin> number ` set instps \<longrightarrow>
          check_instp ev (emit_instps instps) d idx = Panic ''Invalid instruction predicate'') \<and>
         (p \<in> set instps \<and> uint idx = number p \<and>
            idata_format d \<noteq> iform_name (predicate_context p) \<longrightarrow>
          check_instp ev (emit_instps instps) d idx =
            Panic (''Bad format '' @ idata_format d @ ''/'' @ idata_opcode d @
                   '' for instp '' @ dec_nat (unat idx)))"
  using run_arms_registered [OF assms, of p idx ev d] run_arms_unregistered [of idx instps ev d]
  by (simp add: emit_instps_def)

theorem check_instp_outcomes_witness:
  "distinct (map number [ex_P 3, ex_P 7]) \<and>
   check_instp (\<lambda>e d. True) (emit_instps [ex_P 3, ex_P 7])
     \<lparr>idata_format = ''BinaryImm'', idata_opcode = ''iadd_imm''\<rparr> 7 = Return True \<and>
   check_instp (\<lambda>e d. True) (emit_instps [ex_P 3, ex_P 7])
     \<lparr>idata_format = ''BinaryImm'', idata_opcode = ''iadd_imm''\<rparr> 5 =
     Panic ''Invalid instruction predicate'' \<and>
   check_instp (\<lambda>e d. True) (emit_instps [ex_P 3, ex_P 7])
     \<lparr>idata_format = ''Unary'', idata_opcode = ''ineg''\<rparr> 7 =
     Panic ''Bad format Unary/ineg for instp 7''"
  using check_instp_outcomes [of "[ex_P 3, ex_P 7]" "ex_P 7" 7
      "\<lparr>idata_format = ''BinaryImm'', idata_opcode = ''iadd_imm''\<rparr>" "\<lambda>e d. True"]
    check_instp_outcomes [of "[ex_P 3, ex_P 7]" "ex_P 7" 5
      "\<lparr>idata_format = ''BinaryImm'', idata_opcode = ''iadd_imm''\<rparr>" "\<lambda>e d. True"]
    check_instp_outcomes [of "[ex_P 3, ex_P 7]" "ex_P 7" 7
      "\<lparr>idata_format = ''Unary'', idata_opcode = ''ineg''\<rparr>" "\<lambda>e d. True"]
  by (simp add: ex_P_def emit_instps_def emit_instp_def dec_nat.simps)

section \<open>Facts about the sequence table and the annotations\<close>


lemma index_new_self: "index_new idx s off s \<noteq> None"
  by (auto simp: index_new_def split: option.splits)
















text \<open>
  A successful \<^verbatim>\<open>gen_isa\<close> is one run of the loop over the CPU modes from the empty
  sequence table and the empty doc table, followed by the emission of the two tables it
  ends with.
\<close>

lemma gen_isa_InrD:
  assumes "gen_isa i = Inr (f, out)"
  shows "f = emit_instps (all_instps i) \<and>
         (\<exists>level1s s dt.
            encode_cpumodes (cpumodes i) UniqueSeqTable Map.empty = Inr (level1s, s, dt) \<and>
            out = emit_enclists s dt)"
  using assms by (auto simp: gen_isa_def Let_def split: sum.splits)



















end
